theory Spec2Isabelle
  imports Complex_Main "HOL-Library.Sublist"
begin

section \<open>Python numbers\<close>

text \<open>
  The script \<open>app.py\<close> computes with Python \<open>int\<close>s (unbounded, modelled as \<open>int\<close>) and
  Python \<open>float\<close>s (IEEE 754 binary64). A finite float is a rational number, so floats are
  modelled as \<open>rat\<close>, and every float operation is the exact operation followed by
  \<open>double_of\<close>, rounding to the nearest number with a 53 bit significand, ties to even.
  The exponent range is not bounded in the model: overflow to infinity, subnormal numbers
  and NaN are left out (the values of this program stay far away from them as long as the
  classifier returns a finite probability).
\<close>

function bit_length :: "int \<Rightarrow> int" where
  "bit_length n = (if n \<le> 0 then 0 else 1 + bit_length (n div 2))"
  by pat_completeness auto
termination
  by (relation "measure nat") auto

declare bit_length.simps [simp del]

definition pow2 :: "int \<Rightarrow> rat" where
  \<comment> \<open>\<open>2\<close> to an integer power, possibly negative\<close>
  "pow2 e = (if 0 \<le> e then 2 ^ nat e else 1 / 2 ^ nat (- e))"

definition ilog2 :: "rat \<Rightarrow> int" where
  \<comment> \<open>for \<open>0 < x\<close>: the exponent \<open>e\<close> with \<open>2\<^sup>e \<le> x < 2\<^sup>e\<^sup>+\<^sup>1\<close>\<close>
  "ilog2 x = (case quotient_of x of (a, b) \<Rightarrow>
     (let k = bit_length a - bit_length b
      in if pow2 k \<le> x then k else k - 1))"

definition round_half_even :: "rat \<Rightarrow> int" where
  "round_half_even x =
     (let f = \<lfloor>x\<rfloor>; d = x - of_int f
      in if d < 1 / 2 then f
         else if 1 / 2 < d then f + 1
         else if even f then f else f + 1)"

definition double_of :: "rat \<Rightarrow> rat" where
  \<comment> \<open>the binary64 number nearest to \<open>x\<close>; also the value of a float literal\<close>
  "double_of x =
     (if x = 0 then 0
      else (let u = pow2 (ilog2 \<bar>x\<bar> - 52)
            in of_int (round_half_even (x / u)) * u))"

datatype error = ZeroDivisionError

definition float_of_int :: "int \<Rightarrow> rat" where
  "float_of_int i = double_of (of_int i)"

definition int_truediv :: "int \<Rightarrow> int \<Rightarrow> error + rat" where
  \<comment> \<open>\<open>a / b\<close> on two ints: the correctly rounded quotient\<close>
  "int_truediv a b =
     (if b = 0 then Inl ZeroDivisionError else Inr (double_of (of_int a / of_int b)))"

definition float_truediv :: "rat \<Rightarrow> rat \<Rightarrow> error + rat" where
  "float_truediv a b = (if b = 0 then Inl ZeroDivisionError else Inr (double_of (a / b)))"

definition float_pow :: "rat \<Rightarrow> nat \<Rightarrow> rat" where
  \<comment> \<open>\<open>x ** n\<close> for a float and a small non-negative int; the C library's \<open>pow\<close> is taken
      to return the correctly rounded power\<close>
  "float_pow x n = double_of (x ^ n)"

definition py_round :: "rat \<Rightarrow> nat \<Rightarrow> rat" where
  \<comment> \<open>\<open>round(x, n)\<close> on a float: the exact value of \<open>x\<close> is rounded to \<open>n\<close> decimals, ties
      to even, and the decimal result is converted back to the nearest float\<close>
  "py_round x n = double_of (of_int (round_half_even (x * 10 ^ n)) / 10 ^ n)"

section \<open>BMI calculation (lines 55 to 57)\<close>

text \<open>
  \<^verbatim>\<open>height_m = height_cm / 100\<close>
  \<^verbatim>\<open>bmi = round(weight_kg / (height_m ** 2), 2)\<close>
  Both widgets are created with int bounds, so \<open>height_cm\<close> and \<open>weight_kg\<close> are ints.
\<close>

definition compute_bmi :: "int \<Rightarrow> int \<Rightarrow> error + rat \<times> rat" where
  \<comment> \<open>returns \<open>(height_m, bmi)\<close>\<close>
  "compute_bmi height_cm weight_kg =
     (case int_truediv height_cm 100 of
        Inl e \<Rightarrow> Inl e
      | Inr height_m \<Rightarrow>
          (case float_truediv (float_of_int weight_kg) (float_pow height_m 2) of
             Inl e \<Rightarrow> Inl e
           | Inr q \<Rightarrow> Inr (height_m, py_round q 2)))"

section \<open>The state of the script\<close>

text \<open>
  The script has no functions: every name is a module level variable. The state holds
  the objects loaded at start (the classifier, the reference table and the explainer built
  from them), the values the input widgets return, the variables the script assigns and the
  calls it makes, in order: the Streamlit output calls and the two calls into the external
  libraries.

  The classifier and the explainer are opaque to the script. \<open>model s v\<close> stands for
  \<^verbatim>\<open>model.predict_proba(v)[0][1]\<close> and \<open>explainer s v\<close> for \<^verbatim>\<open>explainer(v).values[0]\<close>
  (one signed contribution per feature); both are taken to return, as their contracts say.
  Strings are byte strings: a character outside ASCII is its UTF-8 bytes.
\<close>

datatype event =
    Subheader string
  | Markdown string
  | Progress rat
  | Success string
  | Warning string
  | Error string
  | Caption string
  | Write string
  | Info string
  | Predict_proba "rat list"
  | Explainer "rat list"

record state =
  model :: "rat list \<Rightarrow> rat"
  X_columns :: "string list"
  explainer :: "rat list \<Rightarrow> rat list"
  age :: int
  pregnancies :: int
  height_cm :: int
  weight_kg :: int
  glucose :: int
  blood_pressure :: int
  skin_thickness :: int
  insulin :: int
  dpf :: rat
  height_m :: rat
  bmi :: rat
  user_data :: "rat list"
  medically_low_risk :: bool
  probability :: rat
  risk_level :: string
  impacts :: "rat list"
  explanation :: "(string \<times> rat) list"
  out :: "event list"

definition emit :: "event list \<Rightarrow> state \<Rightarrow> state" where
  \<comment> \<open>the calls of a block, in the order of the source\<close>
  "emit es s = s\<lparr>out := out s @ es\<rparr>"

definition bar_chart :: string where
  "bar_chart = [CHR 0xF0, CHR 0x9F, CHR 0x93, CHR 0x8A]"

definition chart_increasing :: string where
  "chart_increasing = [CHR 0xF0, CHR 0x9F, CHR 0x93, CHR 0x88]"

definition green_circle :: string where
  "green_circle = [CHR 0xF0, CHR 0x9F, CHR 0x9F, CHR 0xA2]"

definition yellow_circle :: string where
  "yellow_circle = [CHR 0xF0, CHR 0x9F, CHR 0x9F, CHR 0xA1]"

definition red_circle :: string where
  "red_circle = [CHR 0xF0, CHR 0x9F, CHR 0x94, CHR 0xB4]"

definition magnifying_glass :: string where
  "magnifying_glass = [CHR 0xF0, CHR 0x9F, CHR 0x94, CHR 0x8D]"

definition bullet :: string where
  "bullet = [CHR 0xE2, CHR 0x80, CHR 0xA2]"

definition pushpin :: string where
  "pushpin = [CHR 0xF0, CHR 0x9F, CHR 0x93, CHR 0x8C]"

definition warning_sign :: string where
  "warning_sign = [CHR 0xE2, CHR 0x9A, CHR 0xA0, CHR 0xEF, CHR 0xB8, CHR 0x8F]"

definition bmi_calculation :: "state \<Rightarrow> error + state" where
  "bmi_calculation s =
     (case compute_bmi (height_cm s) (weight_kg s) of
        Inl e \<Rightarrow> Inl e
      | Inr (hm, b) \<Rightarrow> Inr (s\<lparr>height_m := hm, bmi := b\<rparr>))"

section \<open>The handler of the button (lines 88 to 184)\<close>

text \<open>One definition for each block of the handler, named after the block's comment.\<close>

definition prediction_input :: "state \<Rightarrow> state" where
  \<comment> \<open>lines 89 to 98; \<open>np.array\<close> converts the ints to float64\<close>
  "prediction_input s = s\<lparr>user_data :=
     [float_of_int (pregnancies s), float_of_int (glucose s), float_of_int (blood_pressure s),
      float_of_int (skin_thickness s), float_of_int (insulin s), dpf s, bmi s,
      float_of_int (age s)]\<rparr>"

definition safety_rule_1 :: "state \<Rightarrow> state" where
  \<comment> \<open>lines 100 to 105\<close>
  "safety_rule_1 s =
     s\<lparr>medically_low_risk := (glucose s < 100 \<and> dpf s = 0 \<and> bmi s < 32)\<rparr>"

definition prediction :: "state \<Rightarrow> state" where
  \<comment> \<open>line 107\<close>
  "prediction s =
     (emit [Predict_proba (user_data s)] s)
       \<lparr>probability := double_of (model s (user_data s) * 100)\<rparr>"

definition safety_rule_2 :: "state \<Rightarrow> state" where
  \<comment> \<open>lines 109 to 111\<close>
  "safety_rule_2 s =
     (if 70 < probability s \<and> glucose s < 110 \<and> dpf s = 0
      then s\<lparr>probability := 55\<rparr> else s)"

definition risk_band_logic :: "state \<Rightarrow> state" where
  \<comment> \<open>lines 113 to 121\<close>
  "risk_band_logic s = s\<lparr>risk_level :=
     (if medically_low_risk s then ''LOW''
      else if probability s < 35 then ''LOW''
      else if probability s < 70 then ''MODERATE''
      else ''HIGH'')\<rparr>"

definition result_section :: "state \<Rightarrow> state" where
  \<comment> \<open>lines 123 to 141\<close>
  "result_section s =
     (let s = emit [Subheader (bar_chart @ '' Risk Assessment''),
                    Markdown (''### '' @ chart_increasing @ '' Risk Meter'')] s
      in if risk_level s = ''LOW'' then
           emit [Progress (double_of (25 / 100)),
                 Success (green_circle @ '' Low diabetes risk''),
                 Caption ''Low risk zone''] s
         else if risk_level s = ''MODERATE'' then
           emit [Progress (double_of (60 / 100)),
                 Warning (yellow_circle @ '' Moderate diabetes risk''),
                 Caption ''Moderate risk zone''] s
         else
           emit [Progress (double_of (90 / 100)),
                 Error (red_circle @ '' High diabetes risk''),
                 Caption ''High risk zone''] s)"

definition sorted_reverse :: "('a \<Rightarrow> rat) \<Rightarrow> 'a list \<Rightarrow> 'a list" where
  \<comment> \<open>\<open>sorted(xs, key=key, reverse=True)\<close>: the list is reversed, sorted by a stable
      ascending sort and reversed again\<close>
  "sorted_reverse key xs = rev (sort_key key (rev xs))"

definition influence :: "string \<times> rat \<Rightarrow> string" where
  \<comment> \<open>lines 168 to 171: the text of one attribution\<close>
  "influence x =
     (case x of (feature, value) \<Rightarrow>
        if 0 < value then bullet @ '' '' @ feature @ '' had a stronger influence''
        else bullet @ '' '' @ feature @ '' had less influence'')"

definition explainable_ai :: "state \<Rightarrow> state" where
  \<comment> \<open>lines 155 to 171\<close>
  "explainable_ai s =
     (let s = emit [Subheader (magnifying_glass @ '' What influenced this result?'')] s;
          s = (emit [Explainer (user_data s)] s)\<lparr>impacts := explainer s (user_data s)\<rparr>;
          s = s\<lparr>explanation :=
                 sorted_reverse (\<lambda>x. \<bar>snd x\<bar>) (zip (X_columns s) (impacts s))\<rparr>
      in emit (map (\<lambda>x. Info (influence x)) (take 3 (explanation s))) s)"

definition text_explanation :: "state \<Rightarrow> state" where
  \<comment> \<open>lines 143 to 171\<close>
  "text_explanation s =
     (if medically_low_risk s then
        emit [Write (''Your blood sugar level, body weight range, and lack of family history ''
                @ ''suggest a low diabetes risk based on common medical guidelines.'')] s
      else
        explainable_ai
          (emit [Write (''This result is based on patterns observed in historical health data. ''
                   @ ''It does not confirm or rule out diabetes.'')] s))"

definition guidance :: "state \<Rightarrow> state" where
  \<comment> \<open>lines 173 to 184\<close>
  "guidance s =
     emit [Subheader (pushpin @ '' What can you do next?''),
           Write (''- Maintain a balanced diet and regular physical activity'' @ [CHR 0x0A]
             @ ''- Monitor blood sugar levels if advised'' @ [CHR 0x0A]
             @ ''- Consult a healthcare professional for clarity''),
           Caption (warning_sign
             @ '' This tool is for awareness and learning purposes only.'')] s"

definition check_diabetes_risk :: "state \<Rightarrow> state" where
  \<comment> \<open>the body of \<^verbatim>\<open>if st.button("Check Diabetes Risk"):\<close>\<close>
  "check_diabetes_risk s =
     guidance (text_explanation (result_section (risk_band_logic (safety_rule_2
       (prediction (safety_rule_1 (prediction_input s)))))))"

definition app :: "bool \<Rightarrow> state \<Rightarrow> error + state" where
  \<comment> \<open>one run of the script from line 55 on; \<open>button\<close> is what \<open>st.button\<close> returns\<close>
  "app button s =
     (case bmi_calculation s of
        Inl e \<Rightarrow> Inl e
      | Inr s' \<Rightarrow> Inr (if button then check_diabetes_risk s' else s'))"

section \<open>What an evaluation shows\<close>

definition raw_probability :: "state \<Rightarrow> rat" where
  \<comment> \<open>the value of \<open>probability\<close> after line 107, before the second rule\<close>
  "raw_probability s = probability (prediction (safety_rule_1 (prediction_input s)))"

definition emitted :: "state \<Rightarrow> event list" where
  \<comment> \<open>the calls the handler makes when it starts in \<open>s\<close>\<close>
  "emitted s = drop (length (out s)) (out (check_diabetes_risk s))"

fun is_progress :: "event \<Rightarrow> bool" where
  "is_progress (Progress v) = True"
| "is_progress _ = False"

fun is_info :: "event \<Rightarrow> bool" where
  "is_info (Info t) = True"
| "is_info _ = False"

fun is_explainer :: "event \<Rightarrow> bool" where
  "is_explainer (Explainer v) = True"
| "is_explainer _ = False"

definition in_domain :: "state \<Rightarrow> bool" where
  \<comment> \<open>the bounds the \<open>st.number_input\<close> widgets are created with\<close>
  "in_domain s =
     (1 \<le> age s \<and> age s \<le> 120 \<and> 0 \<le> pregnancies s \<and> pregnancies s \<le> 20
      \<and> 100 \<le> height_cm s \<and> height_cm s \<le> 220 \<and> 30 \<le> weight_kg s \<and> weight_kg s \<le> 200
      \<and> 50 \<le> glucose s \<and> glucose s \<le> 300 \<and> 40 \<le> blood_pressure s \<and> blood_pressure s \<le> 200
      \<and> 0 \<le> skin_thickness s \<and> skin_thickness s \<le> 100 \<and> 0 \<le> insulin s \<and> insulin s \<le> 900
      \<and> 0 \<le> dpf s \<and> dpf s \<le> 3)"

definition same_inputs :: "state \<Rightarrow> state \<Rightarrow> bool" where
  \<comment> \<open>the same loaded objects and the same widget values\<close>
  "same_inputs s t =
     (model s = model t \<and> X_columns s = X_columns t \<and> explainer s = explainer t
      \<and> age s = age t \<and> pregnancies s = pregnancies t \<and> height_cm s = height_cm t
      \<and> weight_kg s = weight_kg t \<and> glucose s = glucose t
      \<and> blood_pressure s = blood_pressure t \<and> skin_thickness s = skin_thickness t
      \<and> insulin s = insulin t \<and> dpf s = dpf t)"

definition defaults :: state where
  \<comment> \<open>an example: the widgets' default values (with the height in metres and the BMI
      the script computes from them, 1.7 and 24.22), a classifier that answers 0.75 and an
      explainer with two contributions of equal size\<close>
  "defaults =
     \<lparr>model = (\<lambda>v. 3 / 4),
      X_columns = [''Pregnancies'', ''Glucose'', ''BloodPressure'', ''SkinThickness'',
                   ''Insulin'', ''DiabetesPedigreeFunction'', ''BMI'', ''Age''],
      explainer = (\<lambda>v. [1 / 8, - 1 / 2, 1 / 2, 0, 1 / 16, 0, - 1 / 4, 1 / 32]),
      age = 30, pregnancies = 0, height_cm = 170, weight_kg = 70, glucose = 120,
      blood_pressure = 80, skin_thickness = 20, insulin = 80, dpf = 0,
      height_m = 7656119366529843 / 4503599627370496,
      bmi = 852165491991511 / 35184372088832, user_data = [], medically_low_risk = False, probability = 0,
      risk_level = [], impacts = [], explanation = [], out = []\<rparr>"

section \<open>Facts about the float model\<close>

text \<open>
  \<open>ilog2\<close> finds the binary exponent, so \<open>double_of\<close> rounds with a relative error of at
  most \<open>2\<^sup>-\<^sup>5\<^sup>3\<close>, and only zero rounds to zero.
\<close>

lemma pow2_powi: "pow2 e = 2 powi e"
  by (simp add: pow2_def power_int_def power_one_over inverse_eq_divide)

lemma bit_length_bounds:
  "0 < n \<Longrightarrow> 0 < bit_length n \<and> 2 ^ (nat (bit_length n) - 1) \<le> n \<and> n < 2 ^ nat (bit_length n)"
proof (induction n rule: bit_length.induct)
  case (1 n)
  show ?case
  proof (cases "n div 2 = 0")
    case True
    with "1.prems" have n: "n = 1" by presburger
    have "bit_length 1 = 1"
      by (simp add: bit_length.simps [of 1] bit_length.simps [of 0])
    with n show ?thesis by simp
  next
    case False
    with "1.prems" have m: "0 < n div 2" by presburger
    from "1.IH" "1.prems" m
    have ih: "0 < bit_length (n div 2)"
      "2 ^ (nat (bit_length (n div 2)) - 1) \<le> n div 2"
      "n div 2 < 2 ^ nat (bit_length (n div 2))"
      by simp_all
    define k where "k = nat (bit_length (n div 2))"
    have k: "0 < k" using ih(1) by (simp add: k_def)
    have b: "bit_length n = 1 + bit_length (n div 2)"
      using "1.prems" by (simp add: bit_length.simps [of n])
    have nk: "nat (bit_length n) = Suc k"
      using ih(1) by (simp add: b k_def nat_add_distrib)
    have "(2::int) ^ k = 2 * 2 ^ (k - 1)"
      using k by (cases k) simp_all
    with ih(2) have lo: "2 ^ k \<le> n" unfolding k_def [symmetric] by presburger
    from ih(3) have hi: "n < 2 * 2 ^ k" unfolding k_def [symmetric] by presburger
    have p: "0 < bit_length n" using ih(1) by (simp add: b)
    show ?thesis unfolding nk using lo hi p by simp
  qed
qed

lemma bit_length_powi:
  assumes "0 < n"
  shows "2 powi (bit_length n - 1) \<le> (of_int n :: rat)"
    and "(of_int n :: rat) < 2 powi (bit_length n)"
proof -
  from bit_length_bounds [OF assms]
  have p: "0 < bit_length n" and lo: "2 ^ (nat (bit_length n) - 1) \<le> n"
    and hi: "n < 2 ^ nat (bit_length n)" by simp_all
  have e1: "(2::rat) powi (bit_length n - 1) = 2 ^ (nat (bit_length n) - 1)"
    using p by (simp add: power_int_def nat_diff_distrib)
  have e2: "(2::rat) powi (bit_length n) = 2 ^ nat (bit_length n)"
    using p by (simp add: power_int_def)
  have "(of_int (2 ^ (nat (bit_length n) - 1)) :: rat) \<le> of_int n"
    using lo by (simp only: of_int_le_iff)
  then show "2 powi (bit_length n - 1) \<le> (of_int n :: rat)" by (simp add: e1)
  have "(of_int n :: rat) < of_int (2 ^ nat (bit_length n))"
    using hi by (simp only: of_int_less_iff)
  then show "(of_int n :: rat) < 2 powi (bit_length n)" by (simp add: e2)
qed

lemma ilog2_bounds:
  assumes "0 < x"
  shows "pow2 (ilog2 x) \<le> x" and "x < pow2 (ilog2 x + 1)"
proof -
  obtain a b where q: "quotient_of x = (a, b)" by (cases "quotient_of x")
  then have b: "0 < b" and x: "x = of_int a / of_int b"
    by (simp_all add: quotient_of_denom_pos quotient_of_div)
  have a: "0 < a" using assms b x by (simp add: zero_less_divide_iff)
  define k where "k = bit_length a - bit_length b"
  have "2 powi (bit_length a - 1) / 2 powi (bit_length b) < (of_int a / of_int b :: rat)"
    using bit_length_powi [OF a] bit_length_powi [OF b] b
    by (intro frac_less2) simp_all
  then have lo: "pow2 (k - 1) < x"
    by (simp add: pow2_powi x k_def power_int_diff [symmetric] algebra_simps)
  have "(of_int a / of_int b :: rat) < 2 powi (bit_length a) / 2 powi (bit_length b - 1)"
    using bit_length_powi [OF a] bit_length_powi [OF b] a
    by (intro frac_less) simp_all
  then have hi: "x < pow2 (k + 1)"
    by (simp add: pow2_powi x k_def power_int_diff [symmetric] algebra_simps)
  have i: "ilog2 x = (if pow2 k \<le> x then k else k - 1)"
    by (simp add: ilog2_def q k_def Let_def)
  show "pow2 (ilog2 x) \<le> x" using lo by (simp add: i)
  show "x < pow2 (ilog2 x + 1)" using hi by (simp add: i not_le)
qed

lemma pow2_pos: "0 < pow2 e"
  by (simp add: pow2_powi)

lemma round_half_even_near: "\<bar>of_int (round_half_even x) - x\<bar> \<le> 1 / 2"
proof -
  have "of_int \<lfloor>x\<rfloor> \<le> x" "x < of_int \<lfloor>x\<rfloor> + 1" by linarith+
  then show ?thesis by (auto simp add: round_half_even_def Let_def)
qed

lemma double_of_near:
  "\<bar>double_of x - x\<bar> \<le> pow2 (ilog2 \<bar>x\<bar> - 52) / 2"
proof (cases "x = 0")
  case True
  then show ?thesis using pow2_pos [of "ilog2 0 - 52"] by (simp add: double_of_def)
next
  case False
  define u where "u = pow2 (ilog2 \<bar>x\<bar> - 52)"
  have u: "0 < u" by (simp add: u_def pow2_pos)
  have "of_int (round_half_even (x / u)) * u - x = (of_int (round_half_even (x / u)) - x / u) * u"
    using u by (simp add: field_simps)
  then have "\<bar>of_int (round_half_even (x / u)) * u - x\<bar>
      = \<bar>of_int (round_half_even (x / u)) - x / u\<bar> * u"
    using u by (simp only: abs_mult abs_of_pos)
  also have "\<dots> \<le> 1 / 2 * u"
    using round_half_even_near [of "x / u"] u by (intro mult_right_mono) simp_all
  finally show ?thesis using False by (simp add: double_of_def u_def Let_def)
qed

lemma double_of_relative_error: "\<bar>double_of x - x\<bar> \<le> \<bar>x\<bar> / 2 ^ 53"
proof (cases "x = 0")
  case True
  then show ?thesis by (simp add: double_of_def)
next
  case False
  then have "0 < \<bar>x\<bar>" by simp
  from ilog2_bounds(1) [OF this]
  have "2 powi (ilog2 \<bar>x\<bar>) \<le> \<bar>x\<bar>" by (simp add: pow2_powi)
  moreover have "(2::rat) powi (ilog2 \<bar>x\<bar> - 52) = 2 powi (ilog2 \<bar>x\<bar>) / 2 ^ 52"
    by (simp add: power_int_diff)
  ultimately have "pow2 (ilog2 \<bar>x\<bar> - 52) / 2 \<le> \<bar>x\<bar> / 2 ^ 53"
    by (simp add: pow2_powi)
  with double_of_near [of x] show ?thesis by linarith
qed

lemma double_of_eq_0_iff: "double_of x = 0 \<longleftrightarrow> x = 0"
proof
  assume d: "double_of x = 0"
  show "x = 0"
  proof (rule ccontr)
    assume "x \<noteq> 0"
    then have "0 < \<bar>x\<bar>" by simp
    moreover from double_of_relative_error [of x] d have "\<bar>x\<bar> \<le> \<bar>x\<bar> / 2 ^ 53" by simp
    ultimately show False by simp
  qed
next
  assume "x = 0"
  then show "double_of x = 0" by (simp add: double_of_def)
qed

lemma compute_bmi_ok:
  assumes "h \<noteq> 0"
  shows "\<exists>hm b. compute_bmi h w = Inr (hm, b)"
proof -
  have "double_of (of_int h / 100) \<noteq> 0" using assms by (simp add: double_of_eq_0_iff)
  then have "float_pow (double_of (of_int h / 100)) 2 \<noteq> 0"
    by (simp add: float_pow_def double_of_eq_0_iff)
  then show ?thesis
    by (simp add: compute_bmi_def int_truediv_def float_truediv_def)
qed

section \<open>Evaluating floats\<close>

lemma double_of_one_tenth: "double_of (1 / 10) = 3602879701896397 / 36028797018963968"
  by code_simp

lemma height_170: "int_truediv 170 100 = Inr (7656119366529843 / 4503599627370496)"
  by code_simp

lemma height_170_squared:
  "float_pow (7656119366529843 / 4503599627370496) 2 = 6507701461550366 / 2251799813685248"
  by code_simp

lemma quotient_170_70:
  "float_truediv (float_of_int 70) (6507701461550366 / 2251799813685248)
     = Inr (1704433249978021 / 70368744177664)"
  by code_simp

lemma round_170_70:
  "py_round (1704433249978021 / 70368744177664) 2 = double_of (2422 / 100)"
  by code_simp

lemma double_of_2422: "double_of (2422 / 100) = 852165491991511 / 35184372088832"
  by code_simp

lemma double_of_1903: "double_of (1903 / 100) = 669558600850473 / 35184372088832"
  by code_simp

lemma bmi_170_70:
  "compute_bmi 170 70 = Inr (7656119366529843 / 4503599627370496, double_of (2422 / 100))"
  unfolding compute_bmi_def height_170 sum.case height_170_squared quotient_170_70 round_170_70
  by (rule refl)

lemma bmi_150_90: "compute_bmi 150 90 = Inr (3 / 2, 40)"
  by code_simp

lemma double_of_75: "double_of 75 = 75"
  by code_simp

lemma double_of_035_times_100: "double_of (78812993478983675 / 2251799813685248) = 35"
  by code_simp

lemma double_of_07_times_100: "double_of (78812993478983675 / 1125899906842624) = 70"
  by code_simp

lemma bmi_170_70_value:
  "compute_bmi 170 70
     = Inr (7656119366529843 / 4503599627370496, 852165491991511 / 35184372088832)"
  by (simp only: bmi_170_70 double_of_2422)

section \<open>The blocks of the handler as updates\<close>

lemma safety_rule_2_upd:
  "safety_rule_2 s = s\<lparr>probability :=
     (if 70 < probability s \<and> glucose s < 110 \<and> dpf s = 0 then 55 else probability s)\<rparr>"
  by (simp add: safety_rule_2_def)

lemma result_section_upd:
  "result_section s = s\<lparr>out := out s @
     [Subheader (bar_chart @ '' Risk Assessment''),
      Markdown (''### '' @ chart_increasing @ '' Risk Meter'')] @
     (if risk_level s = ''LOW'' then
        [Progress (double_of (25 / 100)), Success (green_circle @ '' Low diabetes risk''),
         Caption ''Low risk zone'']
      else if risk_level s = ''MODERATE'' then
        [Progress (double_of (60 / 100)), Warning (yellow_circle @ '' Moderate diabetes risk''),
         Caption ''Moderate risk zone'']
      else
        [Progress (double_of (90 / 100)), Error (red_circle @ '' High diabetes risk''),
         Caption ''High risk zone''])\<rparr>"
  by (simp add: result_section_def emit_def Let_def)

lemma text_explanation_upd:
  "text_explanation s = s\<lparr>
     impacts := (if medically_low_risk s then impacts s else explainer s (user_data s)),
     explanation := (if medically_low_risk s then explanation s
        else sorted_reverse (\<lambda>x. \<bar>snd x\<bar>) (zip (X_columns s) (explainer s (user_data s)))),
     out := out s @
       (if medically_low_risk s then
          [Write (''Your blood sugar level, body weight range, and lack of family history ''
             @ ''suggest a low diabetes risk based on common medical guidelines.'')]
        else
          [Write (''This result is based on patterns observed in historical health data. ''
             @ ''It does not confirm or rule out diabetes.''),
           Subheader (magnifying_glass @ '' What influenced this result?''),
           Explainer (user_data s)] @
          map (\<lambda>x. Info (influence x))
            (take 3 (sorted_reverse (\<lambda>x. \<bar>snd x\<bar>)
               (zip (X_columns s) (explainer s (user_data s))))))\<rparr>"
  by (simp add: text_explanation_def explainable_ai_def emit_def Let_def)

lemmas handler_simps = check_diabetes_risk_def guidance_def emit_def text_explanation_upd
  result_section_upd risk_band_logic_def safety_rule_2_upd prediction_def safety_rule_1_def
  prediction_input_def

lemma bmi_calculation_defaults: "bmi_calculation defaults = Inr defaults"
  by (simp add: bmi_calculation_def defaults_def bmi_170_70_value)

lemma raw_defaults: "raw_probability (defaults\<lparr>glucose := g\<rparr>) = 75"
  by (simp add: raw_probability_def prediction_def safety_rule_1_def prediction_input_def
      emit_def defaults_def double_of_75)

section \<open>Sorting in reverse\<close>

lemma sorted_reverse_desc: "sorted_wrt (\<lambda>a b. key b \<le> key a) (sorted_reverse key xs)"
proof -
  have "sorted (map key (sort_key key (rev xs)))" by simp
  then have "sorted_wrt (\<lambda>a b. key a \<le> key b) (sort_key key (rev xs))"
    by (simp add: sorted_wrt_map)
  then show ?thesis by (simp add: sorted_reverse_def sorted_wrt_rev)
qed

lemma sorted_reverse_stable:
  "filter (\<lambda>x. key x = k) (sorted_reverse key xs) = filter (\<lambda>x. key x = k) xs"
  by (simp add: sorted_reverse_def rev_filter [symmetric] sort_key_stable)

lemma sorted_wrt_take': "sorted_wrt P xs \<Longrightarrow> sorted_wrt P (take n xs)"
  by (metis append_take_drop_id sorted_wrt_append)

lemma take_filter_prefix:
  "prefix (filter P (take n (sorted_reverse key xs))) (filter P (sorted_reverse key xs))"
  by (rule filter_mono_prefix) (rule take_is_prefix)

section \<open>Variables left by an earlier run\<close>

lemma handler_hidden:
  fixes s h u m p r i e ev
  defines "s' \<equiv> s\<lparr>height_m := h, user_data := u, medically_low_risk := m, probability := p,
    risk_level := r, impacts := i, explanation := e, out := ev\<rparr>"
  shows "risk_level (check_diabetes_risk s') = risk_level (check_diabetes_risk s)"
    and "probability (check_diabetes_risk s') = probability (check_diabetes_risk s)"
    and "medically_low_risk (check_diabetes_risk s') = medically_low_risk (check_diabetes_risk s)"
    and "medically_low_risk (check_diabetes_risk s)
          \<or> explanation (check_diabetes_risk s') = explanation (check_diabetes_risk s)"
    and "emitted s' = emitted s"
  unfolding s'_def by (auto simp add: handler_simps emitted_def)

lemma same_inputs_hidden:
  assumes "same_inputs a b" and "bmi a = bmi b"
  shows "a = b\<lparr>height_m := height_m a, user_data := user_data a,
    medically_low_risk := medically_low_risk a, probability := probability a,
    risk_level := risk_level a, impacts := impacts a, explanation := explanation a,
    out := out a\<rparr>"
  using assms by (intro state.equality) (simp_all add: same_inputs_def)

lemma handler_same:
  assumes "same_inputs a b" and "bmi a = bmi b"
  shows "risk_level (check_diabetes_risk a) = risk_level (check_diabetes_risk b)"
    and "probability (check_diabetes_risk a) = probability (check_diabetes_risk b)"
    and "medically_low_risk (check_diabetes_risk a) = medically_low_risk (check_diabetes_risk b)"
    and "medically_low_risk (check_diabetes_risk a)
          \<or> explanation (check_diabetes_risk a) = explanation (check_diabetes_risk b)"
    and "emitted a = emitted b"
proof -
  note e = same_inputs_hidden [OF assms]
  note h = handler_hidden [where s = b and h = "height_m a" and u = "user_data a"
      and m = "medically_low_risk a" and p = "probability a" and r = "risk_level a"
      and i = "impacts a" and e = "explanation a" and ev = "out a", folded e]
  show "risk_level (check_diabetes_risk a) = risk_level (check_diabetes_risk b)" by (rule h(1))
  show "probability (check_diabetes_risk a) = probability (check_diabetes_risk b)" by (rule h(2))
  show m: "medically_low_risk (check_diabetes_risk a) = medically_low_risk (check_diabetes_risk b)"
    by (rule h(3))
  show "medically_low_risk (check_diabetes_risk a)
          \<or> explanation (check_diabetes_risk a) = explanation (check_diabetes_risk b)"
    using h(4) m by simp
  show "emitted a = emitted b" by (rule h(5))
qed

lemma handler_keeps_inputs: "same_inputs s (check_diabetes_risk s)"
  by (simp add: same_inputs_def handler_simps)

lemma app_same:
  assumes "same_inputs s t"
  shows "(case app True s of
            Inl e \<Rightarrow> app True t = Inl e
          | Inr s' \<Rightarrow>
              (case app True t of
                 Inl e \<Rightarrow> False
               | Inr t' \<Rightarrow>
                   risk_level s' = risk_level t' \<and> probability s' = probability t'
                   \<and> drop (length (out s)) (out s') = drop (length (out t)) (out t')
                   \<and> medically_low_risk s' = medically_low_risk t'
                   \<and> (medically_low_risk s' \<or> explanation s' = explanation t')
                   \<and> same_inputs s s' \<and> same_inputs t t'))"
proof -
  from assms have hw: "height_cm s = height_cm t" "weight_kg s = weight_kg t"
    by (simp_all add: same_inputs_def)
  show ?thesis
  proof (cases "compute_bmi (height_cm s) (weight_kg s)")
    case (Inl e)
    then show ?thesis using hw by (simp add: app_def bmi_calculation_def)
  next
    case (Inr p)
    obtain hm b where p: "p = (hm, b)" by (cases p)
    let ?a = "s\<lparr>height_m := hm, bmi := b\<rparr>"
    let ?b = "t\<lparr>height_m := hm, bmi := b\<rparr>"
    have as: "app True s = Inr (check_diabetes_risk ?a)"
      and at: "app True t = Inr (check_diabetes_risk ?b)"
      using Inr p hw by (simp_all add: app_def bmi_calculation_def)
    have si: "same_inputs ?a ?b" "bmi ?a = bmi ?b"
      using assms by (simp_all add: same_inputs_def)
    have k: "same_inputs s (check_diabetes_risk ?a)" "same_inputs t (check_diabetes_risk ?b)"
      using handler_keeps_inputs [of ?a] handler_keeps_inputs [of ?b]
      by (simp_all add: same_inputs_def)
    have em: "drop (length (out s)) (out (check_diabetes_risk ?a)) = emitted ?a"
      "drop (length (out t)) (out (check_diabetes_risk ?b)) = emitted ?b"
      by (simp_all add: emitted_def)
    show ?thesis
      unfolding as at sum.case em
      using handler_same [OF si] k by simp
  qed
qed

section \<open>Claims\<close>

text \<open>
  The claims are stated on the handler \<open>check_diabetes_risk\<close>, started in any state \<open>s\<close>:
  any classifier, any explainer, any values of the inputs and of the BMI, and any values
  left in the variables the handler assigns. \<open>emitted s\<close> is the list of calls it makes.
\<close>

text \<open>
  C1: for every input with glucose < 100, diabetes_pedigree == 0.0 and bmi < 32 the band is
  LOW, whatever probability the classifier returns, and the explainer is not called (no
  attribution is shown either).
\<close>

theorem C1_rule_a_forces_low:
  assumes "glucose s < 100" and "dpf s = 0" and "bmi s < 32"
  shows "risk_level (check_diabetes_risk s) = ''LOW''
     \<and> filter is_explainer (emitted s) = []
     \<and> filter is_info (emitted s) = []"
  using assms by (simp add: emitted_def handler_simps)

text \<open>
  C1, witness: the default inputs with glucose 90.
\<close>

theorem C1_witness:
  "glucose (defaults\<lparr>glucose := 90\<rparr>) < 100 \<and> dpf (defaults\<lparr>glucose := 90\<rparr>) = 0
   \<and> bmi (defaults\<lparr>glucose := 90\<rparr>) < 32
   \<and> risk_level (check_diabetes_risk (defaults\<lparr>glucose := 90\<rparr>)) = ''LOW''
   \<and> filter is_explainer (emitted (defaults\<lparr>glucose := 90\<rparr>)) = []"
proof -
  have h: "glucose (defaults\<lparr>glucose := 90\<rparr>) < 100" "dpf (defaults\<lparr>glucose := 90\<rparr>) = 0"
    "bmi (defaults\<lparr>glucose := 90\<rparr>) < 32"
    by (simp_all add: defaults_def)
  from C1_rule_a_forces_low [OF h] h show ?thesis by simp
qed

text \<open>
  C2: when the raw probability exceeds 70, glucose < 110, diabetes_pedigree == 0.0 and the
  predicate of rule A is false, the probability used for the band is exactly 55 and the band
  is MODERATE.
\<close>

theorem C2_bias_guard:
  assumes "70 < raw_probability s" and "glucose s < 110" and "dpf s = 0"
    and "\<not> (glucose s < 100 \<and> dpf s = 0 \<and> bmi s < 32)"
  shows "probability (check_diabetes_risk s) = 55
     \<and> risk_level (check_diabetes_risk s) = ''MODERATE''"
  using assms by (simp add: raw_probability_def handler_simps)

text \<open>
  C2, witness: the default inputs with glucose 105 and a classifier answering 0.75.
\<close>

theorem C2_witness:
  "70 < raw_probability (defaults\<lparr>glucose := 105\<rparr>)
   \<and> glucose (defaults\<lparr>glucose := 105\<rparr>) < 110 \<and> dpf (defaults\<lparr>glucose := 105\<rparr>) = 0
   \<and> \<not> glucose (defaults\<lparr>glucose := 105\<rparr>) < 100
   \<and> probability (check_diabetes_risk (defaults\<lparr>glucose := 105\<rparr>)) = 55
   \<and> risk_level (check_diabetes_risk (defaults\<lparr>glucose := 105\<rparr>)) = ''MODERATE''"
proof -
  have h: "70 < raw_probability (defaults\<lparr>glucose := 105\<rparr>)"
    "glucose (defaults\<lparr>glucose := 105\<rparr>) < 110" "dpf (defaults\<lparr>glucose := 105\<rparr>) = 0"
    and n: "\<not> glucose (defaults\<lparr>glucose := 105\<rparr>) < 100"
    by (simp_all add: raw_defaults) (simp_all add: defaults_def)
  from n have "\<not> (glucose (defaults\<lparr>glucose := 105\<rparr>) < 100 \<and> dpf (defaults\<lparr>glucose := 105\<rparr>) = 0
      \<and> bmi (defaults\<lparr>glucose := 105\<rparr>) < 32)" by simp
  from C2_bias_guard [OF h this] h n show ?thesis by simp
qed

text \<open>
  C3: the band after the two rules: LOW when rule A fired; otherwise LOW below 35,
  MODERATE below 70 and HIGH in any other case, the probability being the one left by
  rule B. A probability of exactly 35 is MODERATE and one of exactly 70 is HIGH.
\<close>

theorem C3_banding:
  "risk_level (check_diabetes_risk s) =
     (if glucose s < 100 \<and> dpf s = 0 \<and> bmi s < 32 then ''LOW''
      else if probability (check_diabetes_risk s) < 35 then ''LOW''
      else if probability (check_diabetes_risk s) < 70 then ''MODERATE''
      else ''HIGH'')
   \<and> (\<not> (glucose s < 100 \<and> dpf s = 0 \<and> bmi s < 32) \<and> probability (check_diabetes_risk s) = 35
        \<longrightarrow> risk_level (check_diabetes_risk s) = ''MODERATE'')
   \<and> (\<not> (glucose s < 100 \<and> dpf s = 0 \<and> bmi s < 32) \<and> probability (check_diabetes_risk s) = 70
        \<longrightarrow> risk_level (check_diabetes_risk s) = ''HIGH'')"
  by (simp add: handler_simps)

text \<open>
  C3, witness: classifiers answering the floats 0.35 and 0.7, whose products with 100 are
  the floats 35 and 70.
\<close>

theorem C3_witness:
  "\<not> glucose (defaults\<lparr>model := \<lambda>v. 3152519739159347 / 9007199254740992\<rparr>) < 100
   \<and> probability (check_diabetes_risk
        (defaults\<lparr>model := \<lambda>v. 3152519739159347 / 9007199254740992\<rparr>)) = 35
   \<and> risk_level (check_diabetes_risk
        (defaults\<lparr>model := \<lambda>v. 3152519739159347 / 9007199254740992\<rparr>)) = ''MODERATE''
   \<and> \<not> glucose (defaults\<lparr>model := \<lambda>v. 3152519739159347 / 4503599627370496\<rparr>) < 100
   \<and> probability (check_diabetes_risk
        (defaults\<lparr>model := \<lambda>v. 3152519739159347 / 4503599627370496\<rparr>)) = 70
   \<and> risk_level (check_diabetes_risk
        (defaults\<lparr>model := \<lambda>v. 3152519739159347 / 4503599627370496\<rparr>)) = ''HIGH''"
proof -
  let ?s = "defaults\<lparr>model := \<lambda>v. 3152519739159347 / 9007199254740992\<rparr>"
  let ?t = "defaults\<lparr>model := \<lambda>v. 3152519739159347 / 4503599627370496\<rparr>"
  have g: "\<not> glucose ?s < 100" "\<not> glucose ?t < 100" by (simp_all add: defaults_def)
  have p: "probability (check_diabetes_risk ?s) = 35"
    by (simp add: handler_simps defaults_def double_of_035_times_100)
  have q: "probability (check_diabetes_risk ?t) = 70"
    by (simp add: handler_simps defaults_def double_of_07_times_100)
  from C3_banding [of ?s] g(1) p have "risk_level (check_diabetes_risk ?s) = ''MODERATE''" by simp
  moreover from C3_banding [of ?t] g(2) q have "risk_level (check_diabetes_risk ?t) = ''HIGH''" by simp
  ultimately show ?thesis using g p q by simp
qed

text \<open>
  C4 (as stated in the specification): with glucose, diabetes_pedigree and bmi fixed at any
  values outside the range of rule A, a raw probability growing from 30 to 80 takes the band
  from LOW to MODERATE at 35 and to HIGH at 70. This fails where rule B applies: with
  glucose 105 and diabetes_pedigree 0 rule A does not fire, the raw probability 75 is
  replaced by 55, and the band is MODERATE, not HIGH.
\<close>

theorem C4_bias_guard_counterexample:
  "\<not> glucose (defaults\<lparr>glucose := 105\<rparr>) < 100
   \<and> raw_probability (defaults\<lparr>glucose := 105\<rparr>) = 75
   \<and> risk_level (check_diabetes_risk (defaults\<lparr>glucose := 105\<rparr>)) = ''MODERATE''
   \<and> risk_level (check_diabetes_risk (defaults\<lparr>glucose := 105\<rparr>)) \<noteq> ''HIGH''"
  by (simp add: raw_defaults) (simp add: handler_simps defaults_def double_of_75)

text \<open>
  C4 (amended): with glucose, diabetes_pedigree and bmi fixed at any values outside the
  range of rule A and outside the range of rule B (glucose >= 110 or diabetes_pedigree
  other than 0), the band is LOW for a raw probability below 35, MODERATE from 35 up to 70
  (70 excluded) and HIGH from 70 on.
\<close>

theorem C4_thresholds:
  assumes "\<not> (glucose s < 100 \<and> dpf s = 0 \<and> bmi s < 32)"
    and "\<not> (glucose s < 110 \<and> dpf s = 0)"
  shows "risk_level (check_diabetes_risk s) =
     (if raw_probability s < 35 then ''LOW''
      else if raw_probability s < 70 then ''MODERATE''
      else ''HIGH'')"
  using assms by (auto simp add: raw_probability_def handler_simps)

text \<open>
  C4, witness: the default inputs (glucose 120), raw probability 75.
\<close>

theorem C4_witness:
  "\<not> glucose defaults < 100 \<and> \<not> glucose defaults < 110
   \<and> raw_probability defaults = 75
   \<and> risk_level (check_diabetes_risk defaults) = ''HIGH''"
proof -
  have n: "\<not> glucose defaults < 100" "\<not> glucose defaults < 110"
    by (simp_all add: defaults_def)
  have r: "raw_probability defaults = 75"
    using raw_defaults [of 120] by (simp add: defaults_def)
  from n have "\<not> (glucose defaults < 100 \<and> dpf defaults = 0 \<and> bmi defaults < 32)"
    "\<not> (glucose defaults < 110 \<and> dpf defaults = 0)" by simp_all
  from C4_thresholds [OF this] n r show ?thesis by simp
qed

text \<open>
  C5 (as stated in the specification): BMI is weight_kg divided by the square of the height
  in metres, rounded to 2 decimal places; height_cm = 170 with weight_kg = 70 yields
  bmi == 19.03, and height_cm = 150 with weight_kg = 90 yields bmi == 40.0.
  The first example fails: the script computes 24.22 there, which is not the float 19.03.
\<close>

theorem C5_bmi_170_70_is_not_19_03:
  "map_sum id snd (compute_bmi 170 70) \<noteq> Inr (double_of (1903 / 100))"
  unfolding bmi_170_70 double_of_2422 double_of_1903 by simp

text \<open>
  C5 (amended): BMI is weight_kg divided by the square of the height in metres, rounded to
  2 decimal places (each step in float arithmetic, a height of 0 raising
  ZeroDivisionError); height_cm = 170 with weight_kg = 70 yields bmi == 24.22, and
  height_cm = 150 with weight_kg = 90 yields bmi == 40.0.
\<close>

theorem C5_bmi:
  "map_sum id snd (compute_bmi h w) =
     (if float_pow (double_of (of_int h / 100)) 2 = 0 then Inl ZeroDivisionError
      else Inr (py_round (double_of (float_of_int w / float_pow (double_of (of_int h / 100)) 2)) 2))
   \<and> map_sum id snd (compute_bmi 170 70) = Inr (double_of (2422 / 100))
   \<and> map_sum id snd (compute_bmi 150 90) = Inr 40"
  unfolding bmi_170_70 bmi_150_90
  by (simp add: compute_bmi_def int_truediv_def float_truediv_def)

text \<open>
  C6: when rule A does not fire, the three attributions shown are the first three of the
  features sorted by absolute contribution, largest first, and features of equal absolute
  contribution keep the order of the columns of the reference table (for every value \<open>k\<close>,
  the entries of absolute contribution \<open>k\<close> appear in the order of the zipped columns).
\<close>

theorem C6_attribution_ranking:
  assumes "\<not> (glucose s < 100 \<and> dpf s = 0 \<and> bmi s < 32)"
  shows "filter is_info (emitted s)
           = map (\<lambda>x. Info (influence x)) (take 3 (explanation (check_diabetes_risk s)))
     \<and> sorted_wrt (\<lambda>a b. \<bar>snd b\<bar> \<le> \<bar>snd a\<bar>) (take 3 (explanation (check_diabetes_risk s)))
     \<and> sorted_wrt (\<lambda>a b. \<bar>snd b\<bar> \<le> \<bar>snd a\<bar>) (explanation (check_diabetes_risk s))
     \<and> (\<forall>k. filter (\<lambda>x. \<bar>snd x\<bar> = k) (explanation (check_diabetes_risk s))
            = filter (\<lambda>x. \<bar>snd x\<bar> = k)
                (zip (X_columns s) (explainer s (user_data (prediction_input s)))))
     \<and> (\<forall>k. prefix (filter (\<lambda>x. \<bar>snd x\<bar> = k) (take 3 (explanation (check_diabetes_risk s))))
            (filter (\<lambda>x. \<bar>snd x\<bar> = k)
                (zip (X_columns s) (explainer s (user_data (prediction_input s))))))"
proof -
  let ?orig = "zip (X_columns s) (explainer s (user_data (prediction_input s)))"
  let ?key = "\<lambda>x::string \<times> rat. \<bar>snd x\<bar>"
  have e: "explanation (check_diabetes_risk s) = sorted_reverse ?key ?orig"
    using assms by (auto simp add: handler_simps)
  have i: "filter is_info (emitted s)
      = map (\<lambda>x. Info (influence x)) (take 3 (sorted_reverse ?key ?orig))"
    using assms by (auto simp add: emitted_def handler_simps comp_def)
  have pre: "prefix (filter (\<lambda>x. ?key x = k) (take 3 (sorted_reverse ?key ?orig)))
      (filter (\<lambda>x. ?key x = k) ?orig)" for k
    using take_filter_prefix [of "\<lambda>x. ?key x = k" 3 ?key ?orig]
    by (simp only: sorted_reverse_stable)
  show ?thesis
    unfolding e i
    using sorted_reverse_desc [of ?key ?orig] sorted_reverse_stable [of ?key _ ?orig] pre
    by (simp add: sorted_wrt_take')
qed

text \<open>
  C6, witness: the default inputs, where Glucose (-0.5) and BloodPressure (0.5) tie and
  stay in column order.
\<close>

theorem C6_witness:
  "\<not> glucose defaults < 100
   \<and> take 3 (explanation (check_diabetes_risk defaults))
       = [(''Glucose'', - 1 / 2), (''BloodPressure'', 1 / 2), (''BMI'', - 1 / 4)]
   \<and> sorted_wrt (\<lambda>a b. \<bar>snd b\<bar> \<le> \<bar>snd a\<bar>) (take 3 (explanation (check_diabetes_risk defaults)))
   \<and> filter is_info (emitted defaults)
       = [Info (bullet @ '' Glucose had less influence''),
          Info (bullet @ '' BloodPressure had a stronger influence''),
          Info (bullet @ '' BMI had less influence'')]"
proof -
  have n: "\<not> glucose defaults < 100" by (simp add: defaults_def)
  then have h: "\<not> (glucose defaults < 100 \<and> dpf defaults = 0 \<and> bmi defaults < 32)" by simp
  have e: "take 3 (explanation (check_diabetes_risk defaults))
       = [(''Glucose'', - 1 / 2), (''BloodPressure'', 1 / 2), (''BMI'', - 1 / 4)]"
    by (simp add: handler_simps defaults_def sorted_reverse_def)
  from C6_attribution_ranking [OF h] have "sorted_wrt (\<lambda>a b. \<bar>snd b\<bar> \<le> \<bar>snd a\<bar>)
      (take 3 (explanation (check_diabetes_risk defaults)))"
    and "filter is_info (emitted defaults)
      = map (\<lambda>x. Info (influence x)) (take 3 (explanation (check_diabetes_risk defaults)))"
    by simp_all
  then show ?thesis using n e by (simp add: influence_def)
qed

text \<open>
  C7: every evaluation makes exactly one \<open>st.progress\<close> call, with the float 0.25 when the
  band is LOW, 0.60 when it is MODERATE and 0.90 when it is HIGH.
\<close>

theorem C7_meter:
  "filter is_progress (emitted s) =
     [Progress (if risk_level (check_diabetes_risk s) = ''LOW'' then double_of (25 / 100)
                else if risk_level (check_diabetes_risk s) = ''MODERATE'' then double_of (60 / 100)
                else double_of (90 / 100))]"
  by (simp add: emitted_def handler_simps)

text \<open>
  C8: two runs of the script with the same classifier, reference table, explainer and
  widget values give the same band, the same probability, the same calls (so the same
  attributions, in the same order) and, unless rule A fired, the same ranking, whatever the
  variables and the output of the two starting states hold; a run leaves the loaded objects
  and the inputs as they were, and a second run started in the state left by the first
  repeats its results.
\<close>

theorem C8_same_inputs_same_results:
  assumes "same_inputs s t"
  shows "(case app True s of
            Inl e \<Rightarrow> app True t = Inl e
          | Inr s' \<Rightarrow>
              (case app True t of
                 Inl e \<Rightarrow> False
               | Inr t' \<Rightarrow>
                   risk_level s' = risk_level t' \<and> probability s' = probability t'
                   \<and> drop (length (out s)) (out s') = drop (length (out t)) (out t')
                   \<and> medically_low_risk s' = medically_low_risk t'
                   \<and> (medically_low_risk s' \<or> explanation s' = explanation t')
                   \<and> same_inputs s s' \<and> same_inputs t t'))
     \<and> (case app True s of
            Inl e \<Rightarrow> True
          | Inr s' \<Rightarrow>
              (case app True s' of
                 Inl e \<Rightarrow> False
               | Inr s'' \<Rightarrow>
                   risk_level s'' = risk_level s' \<and> probability s'' = probability s'
                   \<and> drop (length (out s')) (out s'') = drop (length (out s)) (out s')))"
proof (intro conjI)
  show "case app True s of
            Inl e \<Rightarrow> app True t = Inl e
          | Inr s' \<Rightarrow>
              (case app True t of
                 Inl e \<Rightarrow> False
               | Inr t' \<Rightarrow>
                   risk_level s' = risk_level t' \<and> probability s' = probability t'
                   \<and> drop (length (out s)) (out s') = drop (length (out t)) (out t')
                   \<and> medically_low_risk s' = medically_low_risk t'
                   \<and> (medically_low_risk s' \<or> explanation s' = explanation t')
                   \<and> same_inputs s s' \<and> same_inputs t t')"
    by (rule app_same [OF assms])
next
  show "case app True s of
            Inl e \<Rightarrow> True
          | Inr s' \<Rightarrow>
              (case app True s' of
                 Inl e \<Rightarrow> False
               | Inr s'' \<Rightarrow>
                   risk_level s'' = risk_level s' \<and> probability s'' = probability s'
                   \<and> drop (length (out s')) (out s'') = drop (length (out s)) (out s'))"
  proof (cases "app True s")
    case (Inl e)
    then show ?thesis by simp
  next
    case (Inr s')
    have "same_inputs s s" by (simp add: same_inputs_def)
    from app_same [OF this] Inr have "same_inputs s s'" by simp
    from app_same [OF this] Inr show ?thesis by (auto split: sum.splits)
  qed
qed

text \<open>
  C8, witness: the default inputs, once in a fresh state and once in a state whose
  variables hold other values.
\<close>

theorem C8_witness:
  "same_inputs defaults
     (defaults\<lparr>probability := 99, risk_level := ''LOW'', out := [Info ''earlier'']\<rparr>)
   \<and> risk_level (check_diabetes_risk defaults) = risk_level (check_diabetes_risk
        (defaults\<lparr>probability := 99, risk_level := ''LOW'', out := [Info ''earlier'']\<rparr>))
   \<and> probability (check_diabetes_risk defaults) = probability (check_diabetes_risk
        (defaults\<lparr>probability := 99, risk_level := ''LOW'', out := [Info ''earlier'']\<rparr>))
   \<and> out (check_diabetes_risk defaults) = drop 1 (out (check_diabetes_risk
        (defaults\<lparr>probability := 99, risk_level := ''LOW'', out := [Info ''earlier'']\<rparr>)))"
proof -
  let ?t = "defaults\<lparr>probability := 99, risk_level := ''LOW'', out := [Info ''earlier'']\<rparr>"
  have h: "same_inputs defaults ?t" by (simp add: same_inputs_def)
  have a: "app True defaults = Inr (check_diabetes_risk defaults)"
    by (simp add: app_def bmi_calculation_defaults)
  have "bmi_calculation ?t = Inr ?t"
    by (simp add: bmi_calculation_def defaults_def bmi_170_70_value)
  then have b: "app True ?t = Inr (check_diabetes_risk ?t)"
    by (simp add: app_def)
  have o: "out defaults = []" "length (out ?t) = 1" by (simp_all add: defaults_def)
  from C8_same_inputs_same_results [OF h] h show ?thesis
    by (simp add: a b o)
qed

text \<open>
  C9: for every input inside the bounds of the widgets the run returns (no division by
  zero in the BMI, the only error the script can raise on its own) and the band is one of
  LOW, MODERATE and HIGH.
\<close>

theorem C9_total_on_domain:
  assumes "in_domain s"
  shows "\<exists>s'. app True s = Inr s'
     \<and> risk_level s' \<in> {''LOW'', ''MODERATE'', ''HIGH''}"
proof -
  from assms have "height_cm s \<noteq> 0" by (simp add: in_domain_def)
  from compute_bmi_ok [OF this, of "weight_kg s"]
  obtain hm b where c: "compute_bmi (height_cm s) (weight_kg s) = Inr (hm, b)" by blast
  then have "app True s = Inr (check_diabetes_risk (s\<lparr>height_m := hm, bmi := b\<rparr>))"
    by (simp add: app_def bmi_calculation_def)
  moreover have "risk_level (check_diabetes_risk (s\<lparr>height_m := hm, bmi := b\<rparr>))
      \<in> {''LOW'', ''MODERATE'', ''HIGH''}"
    by (simp add: handler_simps)
  ultimately show ?thesis by simp
qed

text \<open>
  C9, witness: the default inputs.
\<close>

theorem C9_witness:
  "in_domain defaults
   \<and> app True defaults = Inr (check_diabetes_risk defaults)
   \<and> risk_level (check_diabetes_risk defaults) \<in> {''LOW'', ''MODERATE'', ''HIGH''}"
proof -
  have h: "in_domain defaults" by (simp add: in_domain_def defaults_def)
  have a: "app True defaults = Inr (check_diabetes_risk defaults)"
    by (simp add: app_def bmi_calculation_defaults)
  from C9_total_on_domain [OF h] a h show ?thesis by auto
qed

text \<open>
  C10: an attribution reads "stronger influence" exactly when the signed contribution is
  greater than 0, and "less influence" otherwise, so also for a contribution of exactly 0;
  the attributions shown are these texts for the first three entries of the ranking.
\<close>

theorem C10_direction:
  "(influence (f, v) = bullet @ '' '' @ f @ '' had a stronger influence'') = (0 < v)
   \<and> (influence (f, v) = bullet @ '' '' @ f @ '' had less influence'') = (v \<le> 0)
   \<and> influence (f, 0) = bullet @ '' '' @ f @ '' had less influence''
   \<and> filter is_info (emitted s) =
       (if glucose s < 100 \<and> dpf s = 0 \<and> bmi s < 32 then []
        else map (\<lambda>x. Info (influence x)) (take 3 (explanation (check_diabetes_risk s))))"
  by (simp add: influence_def emitted_def handler_simps comp_def)

end
